theory Spec2Isabelle
  imports Main
begin

section \<open>Product creation form: data model\<close>

text \<open>
  The product creation page keeps one reactive form object. Its option groups, options and
  variant stubs are plain objects with string fields; identifiers come from \<open>generateId\<close>
  (a random base-36 string), so an identifier is modelled as an arbitrary string. A JavaScript
  string is truthy exactly when it is not empty.

  Field names carry a short prefix because the record fields of one theory share a name
  space (\<open>id\<close>, \<open>name\<close> and \<open>code\<close> occur in several objects of the source).
\<close>

record ProductOption =
  opt_id :: string
  opt_name :: string
  opt_code :: string

record OptionGroup =
  grp_id :: string
  grp_name :: string
  grp_code :: string
  options :: "ProductOption list"

record Selection =
  optionGroupId :: string
  optionId :: string

record Variant =
  v_name :: string
  v_sku :: string
  price :: int
  stockOnHand :: int
  v_enabled :: bool
  v_options :: "Selection list"

text \<open>
  Of the form's fields only those read or written by the functions below are kept; the others
  (description, assets, facet values, translations, custom fields) are neither read nor
  written by them.
\<close>

record FormData =
  form_name :: string
  form_slug :: string
  form_enabled :: bool
  optionGroups :: "OptionGroup list"
  variants :: "Variant list"

section \<open>Variant combination generator\<close>

text \<open>The filter predicate \<open>option.name && option.code\<close>.\<close>

definition validOption :: "ProductOption \<Rightarrow> bool" where
  "validOption option = (opt_name option \<noteq> [] \<and> opt_code option \<noteq> [])"

text \<open>The group filter of \<open>generateVariants\<close>: \<open>group.options.some(valid)\<close>.\<close>

definition hasValidOption :: "OptionGroup \<Rightarrow> bool" where
  "hasValidOption grp = list_ex validOption (options grp)"

definition selection :: "OptionGroup \<Rightarrow> ProductOption \<Rightarrow> Selection" where
  "selection grp option = \<lparr>optionGroupId = grp_id grp, optionId = opt_id option\<rparr>"

text \<open>
  \<open>generateCombinations\<close>: empty input gives no combination; a single group gives one
  singleton combination per valid option; otherwise the two nested loops push, for each valid
  option of the first group and each combination of the rest, the option followed by that
  combination.
\<close>

fun generateCombinations :: "OptionGroup list \<Rightarrow> Selection list list" where
  "generateCombinations [] = []"
| "generateCombinations [firstGroup] =
     map (\<lambda>option. [selection firstGroup option]) (filter validOption (options firstGroup))"
| "generateCombinations (firstGroup # restGroups) =
     (let firstOptions = filter validOption (options firstGroup);
          restCombinations = generateCombinations restGroups
      in concat (map (\<lambda>option.
                   map (\<lambda>restCombination. selection firstGroup option # restCombination)
                       restCombinations)
                 firstOptions))"

text \<open>\<open>Array.prototype.join\<close> on a list of strings.\<close>

fun join :: "string \<Rightarrow> string list \<Rightarrow> string" where
  "join sep [] = []"
| "join sep [x] = x"
| "join sep (x # xs) = x @ sep @ join sep xs"

text \<open>
  The lookup shared by \<open>generateVariantName\<close> and \<open>generateVariantSku\<close>: the first group of
  the form (all groups, not only the valid ones) with the selection's group id, then the first
  option of that group with the selection's option id. A failed \<open>find\<close> is \<open>None\<close>.
\<close>

definition findOption :: "FormData \<Rightarrow> Selection \<Rightarrow> ProductOption option" where
  "findOption form opt =
     (case find (\<lambda>g. grp_id g = optionGroupId opt) (optionGroups form) of
        None \<Rightarrow> None
      | Some grp \<Rightarrow> find (\<lambda>po. opt_id po = optionId opt) (options grp))"

definition generateVariantName :: "FormData \<Rightarrow> Selection list \<Rightarrow> string" where
  "generateVariantName form opts =
     (let optionNames =
            filter (\<lambda>n. n \<noteq> [])
              (map (\<lambda>opt. case findOption form opt of None \<Rightarrow> [] | Some option \<Rightarrow> opt_name option)
                   opts)
      in if length optionNames > 0
         then form_name form @ '' - '' @ join '' / '' optionNames
         else if form_name form \<noteq> [] then form_name form else ''Variant'')"

definition generateVariantSku :: "FormData \<Rightarrow> Selection list \<Rightarrow> string" where
  "generateVariantSku form opts =
     (let optionCodes =
            filter (\<lambda>c. c \<noteq> [])
              (map (\<lambda>opt. case findOption form opt of None \<Rightarrow> [] | Some option \<Rightarrow> opt_code option)
                   opts);
          baseSlug = (if form_slug form \<noteq> [] then form_slug form else ''product'')
      in if length optionCodes > 0
         then baseSlug @ ''-'' @ join ''-'' optionCodes
         else baseSlug)"

definition variantStub :: "FormData \<Rightarrow> Selection list \<Rightarrow> Variant" where
  "variantStub form combination =
     \<lparr>v_name = generateVariantName form combination,
      v_sku = generateVariantSku form combination,
      price = 0, stockOnHand = 0, v_enabled = True,
      v_options = combination\<rparr>"

text \<open>
  \<open>generateVariants\<close> overwrites \<open>form.variants\<close>: the single default variant when the form has
  no option group, nothing when no group has a valid option, and one stub per combination of
  the groups that have a valid option otherwise.
\<close>

definition generateVariants :: "FormData \<Rightarrow> FormData" where
  "generateVariants form =
     (if length (optionGroups form) = 0
      then form\<lparr>variants :=
             [\<lparr>v_name = (if form_name form \<noteq> [] then form_name form else ''Default''),
               v_sku = (if form_slug form \<noteq> [] then form_slug form else ''default''),
               price = 0, stockOnHand = 0, v_enabled = True,
               v_options = []\<rparr>]\<rparr>
      else
        let validGroups = filter hasValidOption (optionGroups form)
        in if length validGroups = 0
           then form\<lparr>variants := []\<rparr>
           else form\<lparr>variants := map (variantStub form) (generateCombinations validGroups)\<rparr>)"

text \<open>
  Vocabulary for the statements below: a list of options chosen one per group, each a valid
  option of its group, and the selections such a choice stands for.
\<close>

definition chosenFrom :: "ProductOption list \<Rightarrow> OptionGroup list \<Rightarrow> bool" where
  "chosenFrom chosen groups =
     list_all2 (\<lambda>option grp. option \<in> set (options grp) \<and> validOption option) chosen groups"

definition selections :: "OptionGroup list \<Rightarrow> ProductOption list \<Rightarrow> Selection list" where
  "selections groups chosen = map (\<lambda>(grp, option). selection grp option) (zip groups chosen)"

definition groupSizes :: "FormData \<Rightarrow> nat list" where
  "groupSizes form = map (\<lambda>grp. length (options grp)) (optionGroups form)"

definition onlyValidOptions :: "FormData \<Rightarrow> bool" where
  "onlyValidOptions form = list_all (\<lambda>grp. list_all validOption (options grp)) (optionGroups form)"

definition withoutInvalidGroups :: "FormData \<Rightarrow> FormData" where
  "withoutInvalidGroups form = form\<lparr>optionGroups := filter hasValidOption (optionGroups form)\<rparr>"

section \<open>Slug and code generation\<close>

text \<open>
  Strings are modelled as lists of 8-bit characters, that is, the model covers names whose
  UTF-16 code units are all below 256 (ASCII and the Latin-1 supplement). On that range
  \<open>toLowerCase\<close> maps A to Z and the accented capitals U+00C0 to U+00DE (without the
  multiplication sign U+00D7) to the character 32 places later and keeps every other
  character; the class \<open>\s\<close> holds TAB, LF, VT, FF, CR, SPACE and the no-break space.
\<close>

definition toLowerCaseChar :: "char \<Rightarrow> char" where
  "toLowerCaseChar c =
     (let n = of_char c :: nat
      in if (65 \<le> n \<and> n \<le> 90) \<or> (192 \<le> n \<and> n \<le> 214) \<or> (216 \<le> n \<and> n \<le> 222)
         then char_of (n + 32) else c)"

definition toLowerCase :: "string \<Rightarrow> string" where
  "toLowerCase s = map toLowerCaseChar s"

definition isWhitespace :: "char \<Rightarrow> bool" where
  "isWhitespace c = (of_char c \<in> {9, 10, 11, 12, 13, 32, 160 :: nat})"

definition isLowerAlnum :: "char \<Rightarrow> bool" where
  "isLowerAlnum c = (let n = of_char c :: nat in (97 \<le> n \<and> n \<le> 122) \<or> (48 \<le> n \<and> n \<le> 57))"

text \<open>
  \<open>.replace(/[^a-z0-9\s-]/g, "")\<close>: a character outside \<open>a-z\<close>, \<open>0-9\<close>, whitespace and the
  hyphen is replaced by the empty string, that is, dropped.
\<close>

definition allowedChar :: "char \<Rightarrow> bool" where
  "allowedChar c = (isLowerAlnum c \<or> isWhitespace c \<or> c = CHR ''-'')"

definition removeDisallowed :: "string \<Rightarrow> string" where
  "removeDisallowed s = filter allowedChar s"

text \<open>
  \<open>.replace(/\s+/g, "-")\<close>: the greedy match takes a whole run of whitespace, one hyphen
  replaces it, and the scan goes on behind the run.
\<close>

function replaceWhitespaceRuns :: "string \<Rightarrow> string" where
  "replaceWhitespaceRuns [] = []"
| "replaceWhitespaceRuns (c # cs) =
     (if isWhitespace c
      then CHR ''-'' # replaceWhitespaceRuns (dropWhile isWhitespace cs)
      else c # replaceWhitespaceRuns cs)"
  by pat_completeness auto
termination
  by (relation "measure length") (auto simp: length_dropWhile_le less_Suc_eq_le)

text \<open>\<open>.trim()\<close> strips whitespace (the same class) from both ends.\<close>

definition trim :: "string \<Rightarrow> string" where
  "trim s = rev (dropWhile isWhitespace (rev (dropWhile isWhitespace s)))"

text \<open>The chain that \<open>generateSlug\<close> and \<open>generateCode\<close> both apply to the name.\<close>

definition slugFromName :: "string \<Rightarrow> string" where
  "slugFromName name = trim (replaceWhitespaceRuns (removeDisallowed (toLowerCase name)))"

definition generateSlug :: "FormData \<Rightarrow> FormData" where
  "generateSlug form =
     (if form_name form \<noteq> [] then form\<lparr>form_slug := slugFromName (form_name form)\<rparr> else form)"

text \<open>The attribute (facet) creation form and its \<open>generateCode\<close>.\<close>

record FacetForm =
  facet_name :: string
  facet_code :: string
  isPrivate :: bool
  facet_values :: "string list"

definition generateCode :: "FacetForm \<Rightarrow> FacetForm" where
  "generateCode form =
     (if facet_name form \<noteq> [] then form\<lparr>facet_code := slugFromName (facet_name form)\<rparr> else form)"

section \<open>Listing pages\<close>

text \<open>
  The products, orders and attributes listings hold the same state and the same fetch
  function up to the query document and the fallback message. Page index and page size are
  whole numbers set by the pagination control; they are modelled as unbounded integers.
  What the page does to the outside is kept in two logs of the state: the requests handed to
  the Apollo client and the toasts shown. The answer of the remote API is an argument.
\<close>

record Pagination =
  pageIndex :: int
  pageSize :: int

record Toast =
  title :: string
  description :: string
  color :: string

record QueryOptions =
  q_take :: int
  q_skip :: int

datatype ListRequest =
    Query string QueryOptions
  | DeleteProductMutation string

datatype ListingPage = ProductsList | OrdersList | FacetsList

text \<open>
  A query either rejects (the message of the thrown error, possibly empty) or resolves with
  the \<open>items\<close> and \<open>totalItems\<close> of the response, each of which may be missing.
\<close>

datatype ListResponse =
    QueryRejected string
  | QueryResolved "string list option" "int option"

record ListState =
  pagination :: Pagination
  rows :: "string list"
  totalItems :: int
  list_loading :: bool
  list_error :: "string option"
  list_requests :: "ListRequest list"
  list_toasts :: "Toast list"

fun queryDocument :: "ListingPage \<Rightarrow> string" where
  "queryDocument ProductsList = ''GET_PRODUCTS''"
| "queryDocument OrdersList = ''GET_ORDERS''"
| "queryDocument FacetsList = ''GET_FACETS''"

fun fetchFallback :: "ListingPage \<Rightarrow> string" where
  "fetchFallback ProductsList = ''Failed to fetch products''"
| "fetchFallback OrdersList = ''Failed to fetch orders''"
| "fetchFallback FacetsList = ''Failed to fetch attributes''"

text \<open>The \<open>catch\<close> and \<open>finally\<close> blocks of the fetch functions.\<close>

definition fetchFailed :: "ListingPage \<Rightarrow> string \<Rightarrow> ListState \<Rightarrow> ListState" where
  "fetchFailed page message st =
     (let e = (if message \<noteq> [] then message else fetchFallback page)
      in st\<lparr>list_error := Some e,
            list_toasts := list_toasts st @ [\<lparr>title = ''Error'', description = e, color = ''error''\<rparr>],
            list_loading := False\<rparr>)"

text \<open>
  \<open>fetchProducts\<close>, \<open>fetchOrders\<close> and \<open>fetchFacets\<close>. The flag says whether the Apollo client
  is there; without it the function throws before any query is made.
\<close>

definition fetchPage :: "ListingPage \<Rightarrow> bool \<Rightarrow> ListResponse \<Rightarrow> ListState \<Rightarrow> ListState" where
  "fetchPage page apollo response st0 =
     (let st = st0\<lparr>list_loading := True, list_error := None\<rparr>
      in if \<not> apollo then fetchFailed page ''Apollo client not available'' st
         else
           let variables = \<lparr>q_take = pageSize (pagination st),
                            q_skip = pageIndex (pagination st) * pageSize (pagination st)\<rparr>;
               st' = st\<lparr>list_requests := list_requests st @ [Query (queryDocument page) variables]\<rparr>
           in case response of
                QueryRejected message \<Rightarrow> fetchFailed page message st'
              | QueryResolved items totals \<Rightarrow>
                  st'\<lparr>rows := (case items of None \<Rightarrow> [] | Some xs \<Rightarrow> xs),
                      totalItems := (case totals of None \<Rightarrow> 0 | Some n \<Rightarrow> n),
                      list_loading := False\<rparr>)"

definition fetchProducts :: "bool \<Rightarrow> ListResponse \<Rightarrow> ListState \<Rightarrow> ListState" where
  "fetchProducts = fetchPage ProductsList"

definition fetchOrders :: "bool \<Rightarrow> ListResponse \<Rightarrow> ListState \<Rightarrow> ListState" where
  "fetchOrders = fetchPage OrdersList"

definition fetchFacets :: "bool \<Rightarrow> ListResponse \<Rightarrow> ListState \<Rightarrow> ListState" where
  "fetchFacets = fetchPage FacetsList"

text \<open>
  \<open>deleteProduct\<close> of the products listing. The mutation rejects, or resolves with the
  \<open>result\<close> and \<open>message\<close> of \<open>deleteData.deleteProduct\<close> when that is present. Anything
  but the result \<open>DELETED\<close> is thrown and ends in the same \<open>catch\<close> as a rejection.
\<close>

datatype DeleteResponse =
    DeleteRejected string
  | DeleteResolved "(string \<times> string) option"

definition deleteFailed :: "string \<Rightarrow> ListState \<Rightarrow> ListState" where
  "deleteFailed message st =
     st\<lparr>list_toasts := list_toasts st @
          [\<lparr>title = ''Error'',
            description = (if message \<noteq> [] then message else ''Failed to delete product''),
            color = ''error''\<rparr>]\<rparr>"

definition deleteProduct ::
  "string \<Rightarrow> string \<Rightarrow> bool \<Rightarrow> DeleteResponse \<Rightarrow> ListResponse \<Rightarrow> ListState \<Rightarrow> ListState" where
  "deleteProduct productId productName apollo response refetched st =
     (if \<not> apollo then deleteFailed ''Apollo client not available'' st
      else
        let st' = st\<lparr>list_requests := list_requests st @ [DeleteProductMutation productId]\<rparr>
        in case response of
             DeleteRejected message \<Rightarrow> deleteFailed message st'
           | DeleteResolved None \<Rightarrow> deleteFailed [] st'
           | DeleteResolved (Some (result, message)) \<Rightarrow>
               if result = ''DELETED''
               then fetchProducts apollo refetched
                      (st'\<lparr>list_toasts := list_toasts st' @
                            [\<lparr>title = ''Product deleted'',
                              description = productName @ '' has been deleted successfully.'',
                              color = ''success''\<rparr>]\<rparr>)
               else deleteFailed message st')"

section \<open>Order creation page\<close>

text \<open>
  The page mirrors one draft order of the remote API. \<open>draftOrder\<close> is an untyped ref: it
  starts as \<open>null\<close> and every mutation stores \<open>data?.field\<close> in it, which is \<open>undefined\<close> when
  the field is missing, an order when the mutation went through, and an object of another
  member of the result union (an error result, of which the documents select no field) when the
  server refused. An absent \<open>id\<close> and an empty one are both falsy and are both the empty
  string here; an absent \<open>productVariant\<close> of a line is \<open>None\<close>.
\<close>

record ProductVariantRef =
  pv_id :: string
  pv_name :: string

record OrderLine =
  line_id :: string
  productVariant :: "ProductVariantRef option"

record Address =
  fullName :: string
  company :: string
  streetLine1 :: string
  streetLine2 :: string
  city :: string
  province :: string
  postalCode :: string
  countryCode :: string
  phoneNumber :: string

record CustomerForm =
  firstName :: string
  lastName :: string
  emailAddress :: string
  customer_phoneNumber :: string

record Order =
  order_id :: string
  order_code :: string
  order_state :: string
  lines :: "OrderLine list"
  shippingAddress :: "Address option"

datatype DraftValue =
    Nullish
  | OrderValue Order
  | ErrorResultValue string

text \<open>
  A mutation rejects (network failure or a GraphQL error: the client throws) or resolves with
  the value of \<open>data?.field\<close>. A product search rejects or resolves with the items, if any.
\<close>

datatype MutateOutcome =
    MutateRejected
  | MutateResolved DraftValue

datatype SearchOutcome =
    SearchRejected
  | SearchResolved "string list option"

datatype Request =
    CreateDraftOrder
  | SearchProducts int string
  | AddItemToDraftOrder string string int
  | RemoveDraftOrderLine string string
  | SetDraftOrderCustomer string CustomerForm
  | SetDraftOrderShippingAddress string Address
  | SetDraftOrderBillingAddress string Address
  | TransitionOrderToState string string

text \<open>
  The refs of the page that its functions read or write, followed by the three logs of what
  leaves the page: requests sent, toasts shown, routes pushed. The tab and search fields of the
  three modals are bound in the template only and are left out.
\<close>

record OrderPage =
  loading :: bool
  draftOrder :: DraftValue
  products :: "string list"
  productsLoading :: bool
  productSearchQuery :: string
  customerModalOpen :: bool
  customerForm :: CustomerForm
  shippingModalOpen :: bool
  shippingForm :: Address
  billingModalOpen :: bool
  billingForm :: Address
  sent :: "Request list"
  toasts :: "Toast list"
  routes :: "string list"

definition errorToast :: "string \<Rightarrow> Toast" where
  "errorToast msg = \<lparr>title = ''Error'', description = msg, color = ''error''\<rparr>"

definition successToast :: "string \<Rightarrow> Toast" where
  "successToast msg = \<lparr>title = ''Success'', description = msg, color = ''success''\<rparr>"

definition infoToast :: "string \<Rightarrow> Toast" where
  "infoToast msg = \<lparr>title = ''Info'', description = msg, color = ''info''\<rparr>"

definition validationToast :: Toast where
  "validationToast =
     \<lparr>title = ''Validation Error'', description = ''Please fill in all required fields'',
      color = ''error''\<rparr>"

definition showToast :: "Toast \<Rightarrow> OrderPage \<Rightarrow> OrderPage" where
  "showToast t st = st\<lparr>toasts := toasts st @ [t]\<rparr>"

definition send :: "Request \<Rightarrow> OrderPage \<Rightarrow> OrderPage" where
  "send r st = st\<lparr>sent := sent st @ [r]\<rparr>"

text \<open>\<open>draftOrder.value?.id\<close>, empty when there is none.\<close>

definition draftOrderId :: "OrderPage \<Rightarrow> string" where
  "draftOrderId st = (case draftOrder st of OrderValue od \<Rightarrow> order_id od | _ \<Rightarrow> [])"

definition draftOrderCode :: "OrderPage \<Rightarrow> string" where
  "draftOrderCode st = (case draftOrder st of OrderValue od \<Rightarrow> order_code od | _ \<Rightarrow> ''undefined'')"

definition draftShippingAddress :: "OrderPage \<Rightarrow> Address option" where
  "draftShippingAddress st = (case draftOrder st of OrderValue od \<Rightarrow> shippingAddress od | _ \<Rightarrow> None)"

definition initializeDraftOrder :: "MutateOutcome \<Rightarrow> OrderPage \<Rightarrow> OrderPage" where
  "initializeDraftOrder outcome st0 =
     (let st = send CreateDraftOrder (st0\<lparr>loading := True\<rparr>);
          failed = (\<lambda>s. (showToast (errorToast ''Failed to create draft order'') s)\<lparr>loading := False\<rparr>)
      in case outcome of
           MutateRejected \<Rightarrow> failed st
         | MutateResolved v \<Rightarrow>
             let st' = st\<lparr>draftOrder := v\<rparr>
             in if draftOrderId st' = [] then failed st'
                else (showToast
                        (successToast (''Draft order created! ID: '' @ draftOrderId st' @
                                       '' Code: '' @ draftOrderCode st'))
                        st')\<lparr>loading := False\<rparr>)"

text \<open>\<open>loadProducts\<close>, run by the watcher of the search field once the debounce has passed.\<close>

definition loadProducts :: "SearchOutcome \<Rightarrow> OrderPage \<Rightarrow> OrderPage" where
  "loadProducts outcome st0 =
     (if productSearchQuery st0 = [] then st0\<lparr>products := []\<rparr>
      else
        let st = send (SearchProducts 50 (productSearchQuery st0)) (st0\<lparr>productsLoading := True\<rparr>)
        in case outcome of
             SearchRejected \<Rightarrow>
               (showToast (errorToast ''Failed to load products'') st)\<lparr>productsLoading := False\<rparr>
           | SearchResolved items \<Rightarrow>
               st\<lparr>products := (case items of None \<Rightarrow> [] | Some xs \<Rightarrow> xs),
                   productsLoading := False\<rparr>)"

definition isVariantInOrder :: "OrderPage \<Rightarrow> string \<Rightarrow> bool" where
  "isVariantInOrder st variantId =
     (case draftOrder st of
        OrderValue od \<Rightarrow>
          list_ex (\<lambda>line. case productVariant line of
                            None \<Rightarrow> False
                          | Some pv \<Rightarrow> pv_id pv = variantId)
                  (lines od)
      | _ \<Rightarrow> False)"

definition addItemToOrder :: "string \<Rightarrow> string \<Rightarrow> MutateOutcome \<Rightarrow> OrderPage \<Rightarrow> OrderPage" where
  "addItemToOrder productVariantId variantName outcome st =
     (if draftOrderId st = [] then showToast (errorToast ''No draft order available'') st
      else if isVariantInOrder st productVariantId
      then showToast (infoToast ''This item is already in the order'') st
      else
        let st' = send (AddItemToDraftOrder (draftOrderId st) productVariantId 1) st
        in case outcome of
             MutateRejected \<Rightarrow> showToast (errorToast ''Failed to add item to order'') st'
           | MutateResolved v \<Rightarrow>
               showToast (successToast (variantName @ '' added to order'')) (st'\<lparr>draftOrder := v\<rparr>))"

definition removeItemFromOrder :: "string \<Rightarrow> MutateOutcome \<Rightarrow> OrderPage \<Rightarrow> OrderPage" where
  "removeItemFromOrder orderLineId outcome st =
     (if draftOrderId st = [] then st
      else
        let st' = send (RemoveDraftOrderLine (draftOrderId st) orderLineId) st
        in case outcome of
             MutateRejected \<Rightarrow> showToast (errorToast ''Failed to remove item from order'') st'
           | MutateResolved v \<Rightarrow>
               showToast (successToast ''Item removed from order'') (st'\<lparr>draftOrder := v\<rparr>))"

definition saveCustomer :: "MutateOutcome \<Rightarrow> OrderPage \<Rightarrow> OrderPage" where
  "saveCustomer outcome st =
     (if draftOrderId st = [] then st
      else if firstName (customerForm st) = [] \<or> lastName (customerForm st) = [] \<or>
              emailAddress (customerForm st) = []
      then showToast validationToast st
      else
        let st' = send (SetDraftOrderCustomer (draftOrderId st) (customerForm st)) st
        in case outcome of
             MutateRejected \<Rightarrow> showToast (errorToast ''Failed to save customer information'') st'
           | MutateResolved v \<Rightarrow>
               showToast (successToast ''Customer information saved'')
                 (st'\<lparr>draftOrder := v, customerModalOpen := False\<rparr>))"

definition addressIncomplete :: "Address \<Rightarrow> bool" where
  "addressIncomplete a =
     (fullName a = [] \<or> streetLine1 a = [] \<or> city a = [] \<or> province a = [] \<or>
      postalCode a = [] \<or> countryCode a = [])"

definition saveShippingAddress :: "MutateOutcome \<Rightarrow> OrderPage \<Rightarrow> OrderPage" where
  "saveShippingAddress outcome st =
     (if draftOrderId st = [] then st
      else if addressIncomplete (shippingForm st) then showToast validationToast st
      else
        let st' = send (SetDraftOrderShippingAddress (draftOrderId st) (shippingForm st)) st
        in case outcome of
             MutateRejected \<Rightarrow> showToast (errorToast ''Failed to save shipping address'') st'
           | MutateResolved v \<Rightarrow>
               showToast (successToast ''Shipping address saved'')
                 (st'\<lparr>draftOrder := v, shippingModalOpen := False\<rparr>))"

definition saveBillingAddress :: "MutateOutcome \<Rightarrow> OrderPage \<Rightarrow> OrderPage" where
  "saveBillingAddress outcome st =
     (if draftOrderId st = [] then st
      else if addressIncomplete (billingForm st) then showToast validationToast st
      else
        let st' = send (SetDraftOrderBillingAddress (draftOrderId st) (billingForm st)) st
        in case outcome of
             MutateRejected \<Rightarrow> showToast (errorToast ''Failed to save billing address'') st'
           | MutateResolved v \<Rightarrow>
               showToast (successToast ''Billing address saved'')
                 (st'\<lparr>draftOrder := v, billingModalOpen := False\<rparr>))"

definition copyShippingToBilling :: "MutateOutcome \<Rightarrow> OrderPage \<Rightarrow> OrderPage" where
  "copyShippingToBilling outcome st =
     (case draftShippingAddress st of
        None \<Rightarrow> showToast (errorToast ''Please add a shipping address first'') st
      | Some billingData \<Rightarrow>
          let st' = send (SetDraftOrderBillingAddress (draftOrderId st) billingData) st
          in (case outcome of
                MutateRejected \<Rightarrow> showToast (errorToast ''Failed to copy billing address'') st'
              | MutateResolved v \<Rightarrow>
                  showToast (successToast ''Billing address copied from shipping address'')
                    (st'\<lparr>draftOrder := v\<rparr>)))"

text \<open>
  \<open>completeOrder\<close>: the one place of the page that sends \<open>TRANSITION_ORDER_TO_STATE\<close>. The
  response is not read; a resolved mutation is followed by the success toast and the push of
  \<open>/orders\<close>.
\<close>

definition completeOrder :: "MutateOutcome \<Rightarrow> OrderPage \<Rightarrow> OrderPage" where
  "completeOrder outcome st0 =
     (if draftOrderId st0 = [] then st0
      else
        let st = send (TransitionOrderToState (draftOrderId st0) ''ArrangingPayment'')
                   (st0\<lparr>loading := True\<rparr>)
        in case outcome of
             MutateRejected \<Rightarrow>
               (showToast (errorToast ''Failed to complete order'') st)\<lparr>loading := False\<rparr>
           | MutateResolved v \<Rightarrow>
               (showToast (successToast ''Order completed successfully'') st)
                 \<lparr>routes := routes st @ [''/orders''], loading := False\<rparr>)"

definition onCancel :: "OrderPage \<Rightarrow> OrderPage" where
  "onCancel st = st\<lparr>routes := routes st @ [''/orders'']\<rparr>"

text \<open>
  What can happen to the page: it is mounted, the user types or clicks, and each call that
  awaits the remote API carries the answer it gets. The template disables some buttons in some
  states; the events are not restricted that way, so every run of the page is among the runs
  below.
\<close>

datatype Event =
    Mounted MutateOutcome
  | SearchTyped string SearchOutcome
  | AddItemClicked string string MutateOutcome
  | RemoveItemClicked string MutateOutcome
  | CustomerModalSet bool
  | CustomerFormEdited CustomerForm
  | SaveCustomerClicked MutateOutcome
  | ShippingModalSet bool
  | ShippingFormEdited Address
  | SaveShippingClicked MutateOutcome
  | BillingModalSet bool
  | BillingFormEdited Address
  | SaveBillingClicked MutateOutcome
  | CopyShippingClicked MutateOutcome
  | CompleteOrderClicked MutateOutcome
  | CancelClicked

fun handle :: "Event \<Rightarrow> OrderPage \<Rightarrow> OrderPage" where
  "handle (Mounted outcome) st = initializeDraftOrder outcome st"
| "handle (SearchTyped q outcome) st = loadProducts outcome (st\<lparr>productSearchQuery := q\<rparr>)"
| "handle (AddItemClicked variantId variantName outcome) st =
     addItemToOrder variantId variantName outcome st"
| "handle (RemoveItemClicked orderLineId outcome) st = removeItemFromOrder orderLineId outcome st"
| "handle (CustomerModalSet b) st = st\<lparr>customerModalOpen := b\<rparr>"
| "handle (CustomerFormEdited f) st = st\<lparr>customerForm := f\<rparr>"
| "handle (SaveCustomerClicked outcome) st = saveCustomer outcome st"
| "handle (ShippingModalSet b) st = st\<lparr>shippingModalOpen := b\<rparr>"
| "handle (ShippingFormEdited a) st = st\<lparr>shippingForm := a\<rparr>"
| "handle (SaveShippingClicked outcome) st = saveShippingAddress outcome st"
| "handle (BillingModalSet b) st = st\<lparr>billingModalOpen := b\<rparr>"
| "handle (BillingFormEdited a) st = st\<lparr>billingForm := a\<rparr>"
| "handle (SaveBillingClicked outcome) st = saveBillingAddress outcome st"
| "handle (CopyShippingClicked outcome) st = copyShippingToBilling outcome st"
| "handle (CompleteOrderClicked outcome) st = completeOrder outcome st"
| "handle CancelClicked st = onCancel st"

fun run :: "Event list \<Rightarrow> OrderPage \<Rightarrow> OrderPage" where
  "run [] st = st"
| "run (e # es) st = run es (handle e st)"

definition emptyAddress :: Address where
  "emptyAddress =
     \<lparr>fullName = [], company = [], streetLine1 = [], streetLine2 = [], city = [],
      province = [], postalCode = [], countryCode = [], phoneNumber = []\<rparr>"

definition initialPage :: OrderPage where
  "initialPage =
     \<lparr>loading = False, draftOrder = Nullish, products = [], productsLoading = False,
      productSearchQuery = [], customerModalOpen = False,
      customerForm = \<lparr>firstName = [], lastName = [], emailAddress = [], customer_phoneNumber = []\<rparr>,
      shippingModalOpen = False, shippingForm = emptyAddress,
      billingModalOpen = False, billingForm = emptyAddress,
      sent = [], toasts = [], routes = []\<rparr>"





section \<open>Sample inputs\<close>

text \<open>
  Concrete forms and pages on which the statements below are instantiated. A fresh option
  group is what \<open>addOptionGroup\<close> pushes: empty name, code and option list. An option typed
  as \<open>?\<close> gets the empty code from \<open>addOptionFromInput\<close>, which strips everything but
  \<open>a-z\<close> and \<open>0-9\<close>.
\<close>

definition red :: ProductOption where
  "red = \<lparr>opt_id = ''o1'', opt_name = ''Red'', opt_code = ''red''\<rparr>"

definition blue :: ProductOption where
  "blue = \<lparr>opt_id = ''o2'', opt_name = ''Blue'', opt_code = ''blue''\<rparr>"

definition large :: ProductOption where
  "large = \<lparr>opt_id = ''o3'', opt_name = ''Large'', opt_code = ''l''\<rparr>"

definition questionMark :: ProductOption where
  "questionMark = \<lparr>opt_id = ''o1'', opt_name = ''?'', opt_code = []\<rparr>"

definition colourGroup :: OptionGroup where
  "colourGroup = \<lparr>grp_id = ''g1'', grp_name = ''Colour'', grp_code = ''colour'', options = [red, blue]\<rparr>"

definition sizeGroup :: OptionGroup where
  "sizeGroup = \<lparr>grp_id = ''g2'', grp_name = ''Size'', grp_code = ''size'', options = [large]\<rparr>"

definition freshGroup :: OptionGroup where
  "freshGroup = \<lparr>grp_id = ''g3'', grp_name = [], grp_code = [], options = []\<rparr>"

definition clashingGroup :: OptionGroup where
  "clashingGroup = \<lparr>grp_id = ''g1'', grp_name = ''Mark'', grp_code = ''mark'', options = [questionMark]\<rparr>"

definition shirtForm :: FormData where
  "shirtForm =
     \<lparr>form_name = ''Shirt'', form_slug = ''shirt'', form_enabled = True,
      optionGroups = [colourGroup, sizeGroup], variants = []\<rparr>"

definition shirtWithFreshGroup :: FormData where
  "shirtWithFreshGroup = shirtForm\<lparr>optionGroups := [colourGroup, freshGroup]\<rparr>"

definition shirtOnlyFreshGroup :: FormData where
  "shirtOnlyFreshGroup = shirtForm\<lparr>optionGroups := [freshGroup]\<rparr>"

definition shirtClashingIds :: FormData where
  "shirtClashingIds = shirtForm\<lparr>optionGroups := [clashingGroup, colourGroup]\<rparr>"

definition shirtNoGroups :: FormData where
  "shirtNoGroups = shirtForm\<lparr>optionGroups := []\<rparr>"

definition shirtNoSlug :: FormData where
  "shirtNoSlug = shirtForm\<lparr>form_slug := [], optionGroups := [colourGroup]\<rparr>"

definition untitledForm :: FormData where
  "untitledForm =
     \<lparr>form_name = [], form_slug = [], form_enabled = True, optionGroups = [], variants = []\<rparr>"

definition facetForm :: FacetForm where
  "facetForm = \<lparr>facet_name = ''Shoe Size'', facet_code = [], isPrivate = False, facet_values = []\<rparr>"

definition thirdPage :: ListState where
  "thirdPage =
     \<lparr>pagination = \<lparr>pageIndex = 2, pageSize = 10\<rparr>, rows = [''p21''], totalItems = 21,
      list_loading = False, list_error = None, list_requests = [], list_toasts = []\<rparr>"

definition shirtLine :: OrderLine where
  "shirtLine = \<lparr>line_id = ''1'', productVariant = Some \<lparr>pv_id = ''v1'', pv_name = ''Shirt''\<rparr>\<rparr>"

definition order42 :: Order where
  "order42 =
     \<lparr>order_id = ''42'', order_code = ''T3EPGJKTVZPBD6Z9'', order_state = ''AddingItems'',
      lines = [shirtLine], shippingAddress = None\<rparr>"

definition pageWithOrder :: OrderPage where
  "pageWithOrder = initialPage\<lparr>draftOrder := OrderValue order42\<rparr>"

definition sampleRun :: "Event list" where
  "sampleRun =
     [Mounted (MutateResolved (OrderValue (order42\<lparr>lines := []\<rparr>))),
      AddItemClicked ''v1'' ''Shirt'' (MutateResolved (OrderValue order42)),
      CompleteOrderClicked (MutateResolved (OrderValue (order42\<lparr>order_state := ''ArrangingPayment''\<rparr>)))]"


section \<open>Properties of the variant generator\<close>

text \<open>The number of combinations, and what a combination looks like.\<close>

lemma length_concat_map_map:
  "length (concat (map (\<lambda>x. map (f x) ys) xs)) = length xs * length ys"
  by (induction xs) simp_all

lemma generateCombinations_length:
  "groups \<noteq> [] \<Longrightarrow>
   length (generateCombinations groups) =
     prod_list (map (\<lambda>g. length (filter validOption (options g))) groups)"
proof (induction groups rule: generateCombinations.induct)
  case 1
  then show ?case by simp
next
  case (2 firstGroup)
  then show ?case by simp
next
  case (3 firstGroup v va)
  then show ?case by (simp add: length_concat_map_map)
qed

lemma generateCombinations_shape:
  "c \<in> set (generateCombinations groups) \<Longrightarrow>
   \<exists>chosen. chosenFrom chosen groups \<and> c = selections groups chosen"
proof (induction groups arbitrary: c rule: generateCombinations.induct)
  case 1
  then show ?case by simp
next
  case (2 firstGroup)
  then obtain po where "po \<in> set (options firstGroup)" "validOption po" "c = [selection firstGroup po]"
    by auto
  then have "chosenFrom [po] [firstGroup] \<and> c = selections [firstGroup] [po]"
    by (simp add: chosenFrom_def selections_def)
  then show ?case by blast
next
  case (3 firstGroup v va)
  from "3.prems" obtain po rc where po: "po \<in> set (options firstGroup)" "validOption po"
    and rc: "rc \<in> set (generateCombinations (v # va))" and c: "c = selection firstGroup po # rc"
    by auto
  from "3.IH"[OF refl rc] obtain chosen where "chosenFrom chosen (v # va)" "rc = selections (v # va) chosen"
    by blast
  with po c have "chosenFrom (po # chosen) (firstGroup # v # va) \<and> c = selections (firstGroup # v # va) (po # chosen)"
    by (simp add: chosenFrom_def selections_def)
  then show ?case by blast
qed

lemma chosenFrom_length: "chosenFrom chosen groups \<Longrightarrow> length chosen = length groups"
  by (simp add: chosenFrom_def list_all2_lengthD)

lemma selections_length: "chosenFrom chosen groups \<Longrightarrow> length (selections groups chosen) = length groups"
  by (simp add: selections_def chosenFrom_length)

lemma selections_group_ids:
  "chosenFrom chosen groups \<Longrightarrow> map optionGroupId (selections groups chosen) = map grp_id groups"
  unfolding chosenFrom_def selections_def
  by (induction chosen groups rule: list_all2_induct) (simp_all add: selection_def)

lemma all_valid_filter:
  assumes "\<forall>grp \<in> set groups. options grp \<noteq> [] \<and> (\<forall>option \<in> set (options grp). validOption option)"
  shows "filter hasValidOption groups = groups"
    and "map (\<lambda>g. length (filter validOption (options g))) groups = map (\<lambda>g. length (options g)) groups"
proof -
  have "\<forall>grp \<in> set groups. hasValidOption grp"
  proof
    fix grp assume "grp \<in> set groups"
    with assms obtain x xs where "options grp = x # xs" "validOption x"
      by (cases "options grp") auto
    then show "hasValidOption grp" by (simp add: hasValidOption_def)
  qed
  then show "filter hasValidOption groups = groups" by (simp add: filter_id_conv)
  from assms have "\<forall>grp \<in> set groups. filter validOption (options grp) = options grp"
    by (simp add: filter_id_conv)
  then show "map (\<lambda>g. length (filter validOption (options g))) groups = map (\<lambda>g. length (options g)) groups"
    by simp
qed

lemma find_by_key:
  "distinct (map f xs) \<Longrightarrow> x \<in> set xs \<Longrightarrow> find (\<lambda>y. f y = f x) xs = Some x"
  by (induction xs) (auto simp: image_iff)

lemma findOption_selection:
  assumes "distinct (map grp_id (optionGroups form))" "grp \<in> set (optionGroups form)"
    and "distinct (map opt_id (options grp))" "option \<in> set (options grp)"
  shows "findOption form (selection grp option) = Some option"
  using find_by_key[OF assms(1,2)] find_by_key[OF assms(3,4)]
  by (simp add: findOption_def selection_def)

lemma selections_members:
  "s \<in> set (selections groups chosen) \<Longrightarrow>
   \<exists>grp \<in> set groups. \<exists>option \<in> set chosen. s = selection grp option"
  by (auto simp: selections_def dest: set_zip_leftD set_zip_rightD)

lemma looked_up_options:
  assumes "chosenFrom chosen groups" "set groups \<subseteq> set (optionGroups form)"
    and "distinct (map grp_id (optionGroups form))"
    and "\<forall>grp \<in> set (optionGroups form). distinct (map opt_id (options grp))"
  shows "map (findOption form) (selections groups chosen) = map Some chosen"
  using assms(1,2) unfolding chosenFrom_def selections_def
proof (induction chosen groups rule: list_all2_induct)
  case Nil
  then show ?case by simp
next
  case (Cons option chosen grp groups)
  then have "findOption form (selection grp option) = Some option"
    using assms(3,4) by (intro findOption_selection) auto
  with Cons show ?case by simp
qed

lemma chosen_names:
  assumes "chosenFrom chosen groups"
  shows "filter (\<lambda>n. n \<noteq> []) (map opt_name chosen) = map opt_name chosen"
    and "filter (\<lambda>n. n \<noteq> []) (map opt_code chosen) = map opt_code chosen"
proof -
  from assms have "\<forall>option \<in> set chosen. validOption option"
    unfolding chosenFrom_def by (induction chosen groups rule: list_all2_induct) auto
  then show "filter (\<lambda>n. n \<noteq> []) (map opt_name chosen) = map opt_name chosen"
    and "filter (\<lambda>n. n \<noteq> []) (map opt_code chosen) = map opt_code chosen"
    by (auto simp: filter_id_conv validOption_def)
qed

lemma stub_of_chosen:
  assumes "chosenFrom chosen groups" "set groups \<subseteq> set (optionGroups form)" "groups \<noteq> []"
    and "distinct (map grp_id (optionGroups form))"
    and "\<forall>grp \<in> set (optionGroups form). distinct (map opt_id (options grp))"
  shows "generateVariantName form (selections groups chosen) =
           form_name form @ '' - '' @ join '' / '' (map opt_name chosen)"
    and "generateVariantSku form (selections groups chosen) =
           (if form_slug form = [] then ''product'' else form_slug form) @ ''-'' @
           join ''-'' (map opt_code chosen)"
proof -
  have lk: "map (findOption form) (selections groups chosen) = map Some chosen"
    by (rule looked_up_options[OF assms(1,2,4,5)])
  have n: "map (\<lambda>opt. case findOption form opt of None \<Rightarrow> [] | Some option \<Rightarrow> opt_name option)
             (selections groups chosen) = map opt_name chosen"
  proof -
    have "map (\<lambda>opt. case findOption form opt of None \<Rightarrow> [] | Some option \<Rightarrow> opt_name option)
             (selections groups chosen) =
          map (\<lambda>r. case r of None \<Rightarrow> [] | Some option \<Rightarrow> opt_name option)
             (map (findOption form) (selections groups chosen))"
      by (simp add: comp_def)
    then show ?thesis by (simp add: lk comp_def)
  qed
  have c: "map (\<lambda>opt. case findOption form opt of None \<Rightarrow> [] | Some option \<Rightarrow> opt_code option)
             (selections groups chosen) = map opt_code chosen"
  proof -
    have "map (\<lambda>opt. case findOption form opt of None \<Rightarrow> [] | Some option \<Rightarrow> opt_code option)
             (selections groups chosen) =
          map (\<lambda>r. case r of None \<Rightarrow> [] | Some option \<Rightarrow> opt_code option)
             (map (findOption form) (selections groups chosen))"
      by (simp add: comp_def)
    then show ?thesis by (simp add: lk comp_def)
  qed
  from assms(1,3) have ne: "chosen \<noteq> []"
    using chosenFrom_length by fastforce
  show "generateVariantName form (selections groups chosen) =
           form_name form @ '' - '' @ join '' / '' (map opt_name chosen)"
    unfolding generateVariantName_def n chosen_names(1)[OF assms(1)] using ne by simp
  show "generateVariantSku form (selections groups chosen) =
           (if form_slug form = [] then ''product'' else form_slug form) @ ''-'' @
           join ''-'' (map opt_code chosen)"
    unfolding generateVariantSku_def c chosen_names(2)[OF assms(1)] using ne by simp
qed

lemma variantStub_cong:
  assumes "\<forall>s \<in> set c. findOption f1 s = findOption f2 s"
    and "form_name f1 = form_name f2" "form_slug f1 = form_slug f2"
  shows "variantStub f1 c = variantStub f2 c"
proof -
  have n: "map (\<lambda>opt. case findOption f1 opt of None \<Rightarrow> [] | Some option \<Rightarrow> opt_name option) c =
           map (\<lambda>opt. case findOption f2 opt of None \<Rightarrow> [] | Some option \<Rightarrow> opt_name option) c"
    by (rule map_cong) (simp_all add: assms(1))
  have k: "map (\<lambda>opt. case findOption f1 opt of None \<Rightarrow> [] | Some option \<Rightarrow> opt_code option) c =
           map (\<lambda>opt. case findOption f2 opt of None \<Rightarrow> [] | Some option \<Rightarrow> opt_code option) c"
    by (rule map_cong) (simp_all add: assms(1))
  show ?thesis
    unfolding variantStub_def generateVariantName_def generateVariantSku_def n k assms(2,3) ..
qed

lemma findOption_withoutInvalidGroups:
  assumes "distinct (map grp_id (optionGroups form))"
    and "grp \<in> set (optionGroups form)" "hasValidOption grp" "optionGroupId s = grp_id grp"
  shows "findOption form s = findOption (withoutInvalidGroups form) s"
proof -
  have d: "distinct (map grp_id (filter hasValidOption (optionGroups form)))"
    using assms(1) by (rule distinct_map_filter)
  from assms(2,3) have m: "grp \<in> set (filter hasValidOption (optionGroups form))" by simp
  show ?thesis
    using find_by_key[OF assms(1,2)] find_by_key[OF d m] assms(4)
    by (simp add: findOption_def withoutInvalidGroups_def)
qed

text \<open>
  Claim C1, as amended. When every option group of the form has at least one option and all
  its options are valid, \<open>generateVariants\<close> leaves exactly \<open>k1 * ... * kN\<close> variant stubs, and
  the options of each stub are one selection per group in the order of the groups: as many
  entries as groups, the same group ids in the same order, each entry a valid option of its
  group. With no group at all this is the single default variant with no selection.
\<close>

theorem generateVariants_cartesian_count:
  assumes "\<forall>grp \<in> set (optionGroups form).
             options grp \<noteq> [] \<and> (\<forall>option \<in> set (options grp). validOption option)"
  shows "length (variants (generateVariants form)) = prod_list (groupSizes form) \<and>
         (\<forall>v \<in> set (variants (generateVariants form)).
            length (v_options v) = length (optionGroups form) \<and>
            map optionGroupId (v_options v) = map grp_id (optionGroups form) \<and>
            (\<exists>chosen. chosenFrom chosen (optionGroups form) \<and>
                       v_options v = selections (optionGroups form) chosen))"
proof (cases "optionGroups form = []")
  case True
  then show ?thesis
    by (simp add: generateVariants_def Let_def groupSizes_def chosenFrom_def selections_def)
next
  case False
  note valid = all_valid_filter[OF assms]
  from False valid(1) have vs: "variants (generateVariants form) =
      map (variantStub form) (generateCombinations (optionGroups form))"
    by (simp add: generateVariants_def Let_def)
  have "length (generateCombinations (optionGroups form)) = prod_list (groupSizes form)"
    unfolding groupSizes_def generateCombinations_length[OF False] valid(2) ..
  then have count: "length (variants (generateVariants form)) = prod_list (groupSizes form)"
    by (simp add: vs)
  have shape: "\<forall>v \<in> set (variants (generateVariants form)).
            length (v_options v) = length (optionGroups form) \<and>
            map optionGroupId (v_options v) = map grp_id (optionGroups form) \<and>
            (\<exists>chosen. chosenFrom chosen (optionGroups form) \<and>
                       v_options v = selections (optionGroups form) chosen)"
  proof
    fix v assume "v \<in> set (variants (generateVariants form))"
    then obtain c where c: "c \<in> set (generateCombinations (optionGroups form))"
      and v: "v_options v = c"
      by (auto simp: vs variantStub_def)
    from generateCombinations_shape[OF c] obtain chosen
      where ch: "chosenFrom chosen (optionGroups form)" "c = selections (optionGroups form) chosen"
      by blast
    then show "length (v_options v) = length (optionGroups form) \<and>
            map optionGroupId (v_options v) = map grp_id (optionGroups form) \<and>
            (\<exists>chosen. chosenFrom chosen (optionGroups form) \<and>
                       v_options v = selections (optionGroups form) chosen)"
      using v selections_length[OF ch(1)] selections_group_ids[OF ch(1)] by auto
  qed
  from count shape show ?thesis by blast
qed

text \<open>The shirt form, two colours and one size: two stubs, (red, large) and (blue, large).\<close>

theorem generateVariants_cartesian_count_witness:
  "onlyValidOptions shirtForm \<and> groupSizes shirtForm = [2, 1] \<and>
   length (variants (generateVariants shirtForm)) = 2 \<and>
   map v_options (variants (generateVariants shirtForm)) =
     [selections [colourGroup, sizeGroup] [red, large],
      selections [colourGroup, sizeGroup] [blue, large]]"
proof -
  have h: "\<forall>grp \<in> set (optionGroups shirtForm).
             options grp \<noteq> [] \<and> (\<forall>option \<in> set (options grp). validOption option)"
    by (simp add: shirtForm_def colourGroup_def sizeGroup_def red_def blue_def large_def
        validOption_def)
  from generateVariants_cartesian_count[OF h] show ?thesis
    by (simp add: onlyValidOptions_def groupSizes_def shirtForm_def colourGroup_def sizeGroup_def
        red_def blue_def large_def validOption_def hasValidOption_def generateVariants_def Let_def
        variantStub_def selections_def)
qed

text \<open>
  Claim C1 as written also covers a group without options, whose options are all valid for
  lack of any. There it fails: with two colours and a fresh group the sizes are 2 and 0 and
  their product is 0, but the fresh group is filtered out and two stubs with one selection
  each are generated.
\<close>

theorem generateVariants_fresh_group_counterexample:
  "onlyValidOptions shirtWithFreshGroup \<and>
   groupSizes shirtWithFreshGroup = [2, 0] \<and>
   prod_list (groupSizes shirtWithFreshGroup) = 0 \<and>
   length (variants (generateVariants shirtWithFreshGroup)) = 2 \<and>
   map (\<lambda>v. length (v_options v)) (variants (generateVariants shirtWithFreshGroup)) = [1, 1]"
  by (simp add: onlyValidOptions_def groupSizes_def shirtWithFreshGroup_def shirtForm_def
      colourGroup_def freshGroup_def red_def blue_def validOption_def hasValidOption_def
      generateVariants_def Let_def variantStub_def)

text \<open>
  Claim C2, as amended. Let the group ids of the form be distinct. If the form has no group
  or has a group with a valid option, \<open>generateVariants\<close> leaves the very variants it leaves
  for the form without its invalid groups; if it has groups but none with a valid option, it
  leaves no variant. In both cases no selection of a generated variant carries the id of a
  group without a valid option.
\<close>

theorem generateVariants_ignores_invalid_groups:
  assumes "distinct (map grp_id (optionGroups form))"
  shows "(if optionGroups form = [] \<or> list_ex hasValidOption (optionGroups form)
          then variants (generateVariants form) =
               variants (generateVariants (withoutInvalidGroups form))
          else variants (generateVariants form) = []) \<and>
         (\<forall>v \<in> set (variants (generateVariants form)). \<forall>s \<in> set (v_options v).
            \<forall>grp \<in> set (optionGroups form).
              \<not> hasValidOption grp \<longrightarrow> optionGroupId s \<noteq> grp_id grp)"
proof -
  let ?valid = "filter hasValidOption (optionGroups form)"
  have from_valid: "\<exists>grp \<in> set ?valid. optionGroupId s = grp_id grp"
    if "c \<in> set (generateCombinations ?valid)" "s \<in> set c" for c s
  proof -
    from generateCombinations_shape[OF that(1)] obtain chosen where "c = selections ?valid chosen"
      by blast
    with that(2) selections_members show ?thesis
      by (fastforce simp: selection_def)
  qed
  have first: "variants (generateVariants form) =
               variants (generateVariants (withoutInvalidGroups form))"
    if "optionGroups form = [] \<or> list_ex hasValidOption (optionGroups form)"
  proof (cases "optionGroups form = []")
    case True
    then show ?thesis by (simp add: generateVariants_def Let_def withoutInvalidGroups_def)
  next
    case False
    with that have ne: "?valid \<noteq> []"
      by (auto simp: list_ex_iff filter_empty_conv)
    have "variantStub form c = variantStub (withoutInvalidGroups form) c"
      if c: "c \<in> set (generateCombinations ?valid)" for c
    proof (rule variantStub_cong)
      show "\<forall>s \<in> set c. findOption form s = findOption (withoutInvalidGroups form) s"
      proof
        fix s assume "s \<in> set c"
        from from_valid[OF c this] obtain grp where "grp \<in> set ?valid" "optionGroupId s = grp_id grp"
          by blast
        then show "findOption form s = findOption (withoutInvalidGroups form) s"
          using findOption_withoutInvalidGroups[OF assms] by auto
      qed
    qed (simp_all add: withoutInvalidGroups_def)
    then have "map (variantStub form) (generateCombinations ?valid) =
               map (variantStub (withoutInvalidGroups form)) (generateCombinations ?valid)"
      by simp
    with False ne show ?thesis
      by (simp add: generateVariants_def withoutInvalidGroups_def Let_def)
  qed
  have none: "variants (generateVariants form) = []"
    if "\<not> (optionGroups form = [] \<or> list_ex hasValidOption (optionGroups form))"
    using that by (auto simp: generateVariants_def Let_def list_ex_iff filter_empty_conv)
  have second: "optionGroupId s \<noteq> grp_id grp"
    if "v \<in> set (variants (generateVariants form))" "s \<in> set (v_options v)"
       "grp \<in> set (optionGroups form)" "\<not> hasValidOption grp" for v s grp
  proof -
    from that(1,2) obtain c where "c \<in> set (generateCombinations ?valid)" "s \<in> set c"
      by (auto simp: generateVariants_def Let_def variantStub_def split: if_splits)
    from from_valid[OF this] obtain g where g: "g \<in> set (optionGroups form)" "hasValidOption g"
      "optionGroupId s = grp_id g" by auto
    with that(4) have "g \<noteq> grp" by auto
    with g(1) that(3) assms have "grp_id g \<noteq> grp_id grp"
      by (meson distinct_map inj_onD)
    with g(3) show ?thesis by simp
  qed
  from first none second show ?thesis by auto
qed

text \<open>Two colours and a fresh group: the fresh group changes nothing.\<close>

theorem generateVariants_ignores_invalid_groups_witness:
  "distinct (map grp_id (optionGroups shirtWithFreshGroup)) \<and>
   map hasValidOption (optionGroups shirtWithFreshGroup) = [True, False] \<and>
   variants (generateVariants shirtWithFreshGroup) =
     variants (generateVariants (withoutInvalidGroups shirtWithFreshGroup)) \<and>
   map v_name (variants (generateVariants shirtWithFreshGroup)) = [''Shirt - Red'', ''Shirt - Blue'']"
proof -
  have d: "distinct (map grp_id (optionGroups shirtWithFreshGroup))"
    by (simp add: shirtWithFreshGroup_def shirtForm_def colourGroup_def freshGroup_def)
  have v: "map hasValidOption (optionGroups shirtWithFreshGroup) = [True, False]"
    by (simp add: shirtWithFreshGroup_def shirtForm_def colourGroup_def freshGroup_def
        red_def blue_def validOption_def hasValidOption_def)
  then have "list_ex hasValidOption (optionGroups shirtWithFreshGroup)"
    by (simp add: shirtWithFreshGroup_def shirtForm_def colourGroup_def freshGroup_def
        red_def blue_def validOption_def hasValidOption_def)
  with generateVariants_ignores_invalid_groups[OF d]
  have e: "variants (generateVariants shirtWithFreshGroup) =
     variants (generateVariants (withoutInvalidGroups shirtWithFreshGroup))"
    by simp
  have n: "map v_name (variants (generateVariants shirtWithFreshGroup)) = [''Shirt - Red'', ''Shirt - Blue'']"
    by (simp add: shirtWithFreshGroup_def shirtForm_def colourGroup_def freshGroup_def
        red_def blue_def validOption_def hasValidOption_def generateVariants_def Let_def variantStub_def
        generateVariantName_def findOption_def selection_def)
  from d v e n show ?thesis by blast
qed

text \<open>
  Claim C2 as written fails in two ways. When the only group is a fresh one, no variant is
  generated, while the remaining groups, none, give the default variant. When a group without
  a valid option has the id of a valid group, names and SKUs are looked up in the invalid
  group, which comes first, and differ from those generated from the valid groups alone.
\<close>

theorem generateVariants_invalid_groups_counterexample:
  "variants (generateVariants shirtOnlyFreshGroup) = [] \<and>
   map v_name (variants (generateVariants (withoutInvalidGroups shirtOnlyFreshGroup))) = [''Shirt''] \<and>
   map hasValidOption (optionGroups shirtClashingIds) = [False, True] \<and>
   map v_name (variants (generateVariants shirtClashingIds)) = [''Shirt - ?'', ''Shirt''] \<and>
   map v_name (variants (generateVariants (withoutInvalidGroups shirtClashingIds))) =
     [''Shirt - Red'', ''Shirt - Blue'']"
  by (simp add: shirtOnlyFreshGroup_def shirtClashingIds_def shirtForm_def colourGroup_def
      freshGroup_def clashingGroup_def questionMark_def red_def blue_def validOption_def
      hasValidOption_def withoutInvalidGroups_def generateVariants_def Let_def variantStub_def
      generateVariantName_def findOption_def selection_def)

text \<open>
  Claim C3, as amended. With no option group \<open>generateVariants\<close> leaves exactly one variant,
  without selections, priced 0, with stock 0 and enabled; it is named after the product and
  carries the slug as its SKU, with \<open>Default\<close> and \<open>default\<close> standing in for an empty name and
  an empty slug.
\<close>

theorem generateVariants_no_groups:
  "optionGroups form = [] \<Longrightarrow>
   variants (generateVariants form) =
     [\<lparr>v_name = (if form_name form = [] then ''Default'' else form_name form),
       v_sku = (if form_slug form = [] then ''default'' else form_slug form),
       price = 0, stockOnHand = 0, v_enabled = True, v_options = []\<rparr>]"
  by (simp add: generateVariants_def Let_def)

text \<open>The shirt form without groups: one variant named \<open>Shirt\<close>.\<close>

theorem generateVariants_no_groups_witness:
  "optionGroups shirtNoGroups = [] \<and>
   variants (generateVariants shirtNoGroups) =
     [\<lparr>v_name = ''Shirt'', v_sku = ''shirt'', price = 0, stockOnHand = 0, v_enabled = True,
       v_options = []\<rparr>]"
proof -
  have h: "optionGroups shirtNoGroups = []"
    by (simp add: shirtNoGroups_def)
  from generateVariants_no_groups[OF h] show ?thesis
    by (simp add: shirtNoGroups_def shirtForm_def)
qed

text \<open>
  Claim C3 as written fails for a form whose product name is empty: the variant is named
  \<open>Default\<close>, not after the (empty) product name.
\<close>

theorem generateVariants_untitled_counterexample:
  "optionGroups untitledForm = [] \<and> form_name untitledForm = [] \<and>
   map v_name (variants (generateVariants untitledForm)) = [''Default'']"
  by (simp add: untitledForm_def generateVariants_def Let_def)

text \<open>
  Claim C4, as amended. Let the group ids be distinct, and the option ids within each group.
  Then every variant generated from a form with option groups belongs to a choice of one valid
  option per valid group, in group order; its name is the product name, \<open>" - "\<close> and the
  names of the chosen options joined by \<open>" / "\<close>, and its SKU is the slug, or \<open>product\<close> when
  the slug is empty, followed by a hyphen and the codes of the chosen options joined by hyphens.
\<close>

theorem generated_variant_name_and_sku:
  assumes "distinct (map grp_id (optionGroups form))"
    and "\<forall>grp \<in> set (optionGroups form). distinct (map opt_id (options grp))"
    and "optionGroups form \<noteq> []"
    and "v \<in> set (variants (generateVariants form))"
  shows "\<exists>chosen.
           chosenFrom chosen (filter hasValidOption (optionGroups form)) \<and>
           v_options v = selections (filter hasValidOption (optionGroups form)) chosen \<and>
           v_name v = form_name form @ '' - '' @ join '' / '' (map opt_name chosen) \<and>
           v_sku v = (if form_slug form = [] then ''product'' else form_slug form) @ ''-'' @
                     join ''-'' (map opt_code chosen)"
proof -
  let ?valid = "filter hasValidOption (optionGroups form)"
  from assms(3,4) have ne: "?valid \<noteq> []"
    by (auto simp: generateVariants_def Let_def split: if_splits)
  with assms(3,4) obtain c where c: "c \<in> set (generateCombinations ?valid)"
    and v: "v = variantStub form c"
    by (auto simp: generateVariants_def Let_def)
  from generateCombinations_shape[OF c] obtain chosen
    where ch: "chosenFrom chosen ?valid" "c = selections ?valid chosen"
    by blast
  have sub: "set ?valid \<subseteq> set (optionGroups form)" by auto
  note stub = stub_of_chosen[OF ch(1) sub ne assms(1,2)]
  from v ch(2) stub have "v_options v = selections ?valid chosen \<and>
           v_name v = form_name form @ '' - '' @ join '' / '' (map opt_name chosen) \<and>
           v_sku v = (if form_slug form = [] then ''product'' else form_slug form) @ ''-'' @
                     join ''-'' (map opt_code chosen)"
    by (simp add: variantStub_def)
  with ch(1) show ?thesis by blast
qed

text \<open>The shirt form: \<open>Shirt - Red / Large\<close> with SKU \<open>shirt-red-l\<close>, and the same for blue.\<close>

theorem generated_variant_name_and_sku_witness:
  "distinct (map grp_id (optionGroups shirtForm)) \<and>
   list_all (\<lambda>grp. distinct (map opt_id (options grp))) (optionGroups shirtForm) \<and>
   map v_name (variants (generateVariants shirtForm)) =
     [''Shirt - Red / Large'', ''Shirt - Blue / Large''] \<and>
   map v_sku (variants (generateVariants shirtForm)) = [''shirt-red-l'', ''shirt-blue-l''] \<and>
   (\<exists>chosen. hd (variants (generateVariants shirtForm)) = variantStub shirtForm
                 (selections (filter hasValidOption (optionGroups shirtForm)) chosen) \<and>
              v_name (hd (variants (generateVariants shirtForm))) =
                ''Shirt - '' @ join '' / '' (map opt_name chosen))"
proof -
  have d: "distinct (map grp_id (optionGroups shirtForm))"
    by (simp add: shirtForm_def colourGroup_def sizeGroup_def)
  have e: "\<forall>grp \<in> set (optionGroups shirtForm). distinct (map opt_id (options grp))"
    by (simp add: shirtForm_def colourGroup_def sizeGroup_def red_def blue_def large_def)
  have n: "optionGroups shirtForm \<noteq> []"
    by (simp add: shirtForm_def)
  have vs: "variants (generateVariants shirtForm) =
      [variantStub shirtForm (selections [colourGroup, sizeGroup] [red, large]),
       variantStub shirtForm (selections [colourGroup, sizeGroup] [blue, large])]"
    by (simp add: shirtForm_def colourGroup_def sizeGroup_def red_def blue_def large_def
        validOption_def hasValidOption_def generateVariants_def Let_def selections_def)
  then have m: "hd (variants (generateVariants shirtForm)) \<in> set (variants (generateVariants shirtForm))"
    by simp
  from generated_variant_name_and_sku[OF d e n m] obtain chosen where
    c: "v_options (hd (variants (generateVariants shirtForm))) =
          selections (filter hasValidOption (optionGroups shirtForm)) chosen"
       "v_name (hd (variants (generateVariants shirtForm))) =
          form_name shirtForm @ '' - '' @ join '' / '' (map opt_name chosen)"
    by blast
  have names: "map v_name (variants (generateVariants shirtForm)) =
     [''Shirt - Red / Large'', ''Shirt - Blue / Large'']"
    unfolding vs
    by (simp add: shirtForm_def colourGroup_def sizeGroup_def red_def blue_def large_def
        variantStub_def generateVariantName_def findOption_def selection_def selections_def)
  have skus: "map v_sku (variants (generateVariants shirtForm)) = [''shirt-red-l'', ''shirt-blue-l'']"
    unfolding vs
    by (simp add: shirtForm_def colourGroup_def sizeGroup_def red_def blue_def large_def
        variantStub_def generateVariantSku_def findOption_def selection_def selections_def)
  have "hd (variants (generateVariants shirtForm)) = variantStub shirtForm
                 (selections (filter hasValidOption (optionGroups shirtForm)) chosen)"
    using c(1) unfolding vs by (simp add: variantStub_def)
  with c(2) have "\<exists>chosen. hd (variants (generateVariants shirtForm)) = variantStub shirtForm
                 (selections (filter hasValidOption (optionGroups shirtForm)) chosen) \<and>
              v_name (hd (variants (generateVariants shirtForm))) =
                ''Shirt - '' @ join '' / '' (map opt_name chosen)"
    by (auto simp: shirtForm_def)
  with d e names skus show ?thesis
    by (simp add: list_all_iff)
qed

text \<open>
  Claim C4 as written fails for a form with an empty slug, where the SKUs start with
  \<open>product\<close> rather than with the empty slug, and for clashing ids, where the lookup finds
  another option than the selected one.
\<close>

theorem generated_variant_sku_counterexample:
  "form_slug shirtNoSlug = [] \<and>
   map v_sku (variants (generateVariants shirtNoSlug)) = [''product-red'', ''product-blue''] \<and>
   map v_name (variants (generateVariants shirtClashingIds)) = [''Shirt - ?'', ''Shirt''] \<and>
   map v_sku (variants (generateVariants shirtClashingIds)) = [''shirt'', ''shirt'']"
  by (simp add: shirtNoSlug_def shirtClashingIds_def shirtForm_def colourGroup_def
      clashingGroup_def questionMark_def red_def blue_def validOption_def hasValidOption_def
      generateVariants_def Let_def variantStub_def generateVariantSku_def generateVariantName_def
      findOption_def selection_def)

section \<open>Properties of slug and code generation\<close>

lemma hyphen_not_whitespace: "\<not> isWhitespace CHR ''-''"
  by (simp add: isWhitespace_def)

lemma toLowerCaseChar_whitespace: "isWhitespace c \<Longrightarrow> toLowerCaseChar c = c"
  by (auto simp: isWhitespace_def toLowerCaseChar_def Let_def)

lemma of_char_bound: "of_char (c::char) < (256::nat)"
  by (metis (full_types) of_char_mod_256 mod_less_divisor zero_less_numeral)

lemma isWhitespace_toLowerCaseChar: "isWhitespace (toLowerCaseChar c) = isWhitespace c"
proof (cases "toLowerCaseChar c = c")
  case True
  then show ?thesis by simp
next
  case False
  then have up: "(65 \<le> (of_char c::nat) \<and> (of_char c::nat) \<le> 90) \<or> (192 \<le> (of_char c::nat) \<and> (of_char c::nat) \<le> 222)"
    and eq: "toLowerCaseChar c = char_of ((of_char c :: nat) + 32)"
    by (auto simp: toLowerCaseChar_def Let_def split: if_splits)
  from up have "(of_char (toLowerCaseChar c) :: nat) = of_char c + 32"
    unfolding eq by (auto simp: of_char_of)
  with up show ?thesis by (auto simp: isWhitespace_def)
qed

lemma toLowerCaseChar_slug_char:
  "isLowerAlnum c \<or> c = CHR ''-'' \<Longrightarrow> toLowerCaseChar c = c"
  by (auto simp: isLowerAlnum_def toLowerCaseChar_def Let_def)

lemma lowerAlnum_not_whitespace: "isLowerAlnum c \<Longrightarrow> \<not> isWhitespace c"
  by (auto simp: isLowerAlnum_def isWhitespace_def Let_def)

lemma replaceWhitespaceRuns_no_whitespace:
  "c \<in> set (replaceWhitespaceRuns s) \<Longrightarrow> \<not> isWhitespace c"
  by (induction s rule: replaceWhitespaceRuns.induct)
     (auto simp: hyphen_not_whitespace split: if_splits)

lemma replaceWhitespaceRuns_chars:
  "c \<in> set (replaceWhitespaceRuns s) \<Longrightarrow> c = CHR ''-'' \<or> c \<in> set s"
  by (induction s rule: replaceWhitespaceRuns.induct)
     (auto split: if_splits dest: set_dropWhileD)

lemma trim_no_whitespace: "\<forall>c \<in> set s. \<not> isWhitespace c \<Longrightarrow> trim s = s"
proof -
  assume a: "\<forall>c \<in> set s. \<not> isWhitespace c"
  have "\<And>t. \<forall>c \<in> set t. \<not> isWhitespace c \<Longrightarrow> dropWhile isWhitespace t = t"
    by (case_tac t) auto
  from this[of s] this[of "rev s"] a show ?thesis by (simp add: trim_def)
qed

lemma replaceWhitespaceRuns_append_plain:
  "\<forall>c \<in> set a. \<not> isWhitespace c \<Longrightarrow> replaceWhitespaceRuns (a @ b) = a @ replaceWhitespaceRuns b"
  by (induction a) auto

lemma slugFromName_plain: "slugFromName name = replaceWhitespaceRuns (removeDisallowed (toLowerCase name))"
  unfolding slugFromName_def
  by (rule trim_no_whitespace) (blast dest: replaceWhitespaceRuns_no_whitespace)

lemma slugFromName_chars: "c \<in> set (slugFromName name) \<Longrightarrow> isLowerAlnum c \<or> c = CHR ''-''"
proof -
  assume c: "c \<in> set (slugFromName name)"
  then have nw: "\<not> isWhitespace c"
    by (simp add: slugFromName_plain replaceWhitespaceRuns_no_whitespace)
  from c have "c = CHR ''-'' \<or> c \<in> set (removeDisallowed (toLowerCase name))"
    by (simp add: slugFromName_plain replaceWhitespaceRuns_chars)
  with nw show ?thesis by (auto simp: removeDisallowed_def allowedChar_def)
qed

lemma slugFromName_fixed:
  assumes "\<forall>c \<in> set s. isLowerAlnum c \<or> c = CHR ''-''"
  shows "slugFromName s = s"
proof -
  from assms have l: "toLowerCase s = s"
    by (simp add: toLowerCase_def map_idI toLowerCaseChar_slug_char)
  from assms have r: "removeDisallowed s = s"
    by (auto simp: removeDisallowed_def allowedChar_def filter_id_conv)
  from assms have nw: "\<forall>c \<in> set s. \<not> isWhitespace c"
    using lowerAlnum_not_whitespace hyphen_not_whitespace by blast
  from replaceWhitespaceRuns_append_plain[OF nw, of "[]"] have "replaceWhitespaceRuns s = s" by simp
  with l r show ?thesis by (simp add: slugFromName_plain)
qed

lemma slugFromName_idem: "slugFromName (slugFromName name) = slugFromName name"
  by (rule slugFromName_fixed) (blast dest: slugFromName_chars)

lemma removeDisallowed_toLowerCase_Cons:
  "removeDisallowed (toLowerCase (c # s)) =
     (if allowedChar (toLowerCaseChar c)
      then toLowerCaseChar c # removeDisallowed (toLowerCase s)
      else removeDisallowed (toLowerCase s))"
  by (simp add: removeDisallowed_def toLowerCase_def)

lemma whitespace_allowed: "isWhitespace c \<Longrightarrow> allowedChar (toLowerCaseChar c)"
  by (simp add: toLowerCaseChar_whitespace allowedChar_def)

lemma dropWhile_whitespace_after_removal:
  "dropWhile isWhitespace (removeDisallowed (toLowerCase s)) =
   removeDisallowed (toLowerCase
     (dropWhile (\<lambda>d. isWhitespace d \<or> \<not> allowedChar (toLowerCaseChar d)) s))"
proof (induction s)
  case Nil
  then show ?case by (simp add: removeDisallowed_def toLowerCase_def)
next
  case (Cons d t)
  show ?case
  proof (cases "allowedChar (toLowerCaseChar d)")
    case False
    with Cons show ?thesis by (simp add: removeDisallowed_toLowerCase_Cons)
  next
    case True
    show ?thesis
    proof (cases "isWhitespace d")
      case True
      with Cons show ?thesis
        by (simp add: removeDisallowed_toLowerCase_Cons whitespace_allowed
            isWhitespace_toLowerCaseChar)
    next
      case False
      with True show ?thesis
        by (simp add: removeDisallowed_toLowerCase_Cons isWhitespace_toLowerCaseChar)
    qed
  qed
qed

lemma toLowerCaseChar_upper:
  assumes "65 \<le> (of_char c :: nat)" "(of_char c :: nat) \<le> 90"
  shows "toLowerCaseChar c = char_of (of_char c + 32 :: nat)"
    and "isLowerAlnum (toLowerCaseChar c)"
proof -
  from assms show eq: "toLowerCaseChar c = char_of (of_char c + 32 :: nat)"
    by (simp add: toLowerCaseChar_def Let_def)
  from assms have "(of_char (toLowerCaseChar c) :: nat) = of_char c + 32"
    unfolding eq by (simp add: of_char_of)
  with assms show "isLowerAlnum (toLowerCaseChar c)"
    by (simp add: isLowerAlnum_def Let_def)
qed


text \<open>
  Claim C5, as amended. The slug of a name is read off the name from the front. A character
  that, once lower-cased, is not in \<open>a-z\<close>, \<open>0-9\<close>, whitespace or the hyphen is dropped,
  wherever it stands, and no hyphen stands in for it. Any other character that is not
  whitespace is kept in its lower-case form: a capital \<open>A-Z\<close> becomes the letter 32 places
  later, and \<open>a-z\<close>, \<open>0-9\<close> and the hyphen stay as they are. A whitespace character opens a
  run, which goes on over the whitespace and the dropped characters that follow it; the whole
  run gives one hyphen, and the slug goes on with what follows the run. The empty name has the
  empty slug, and every slug is made of \<open>a-z\<close>, \<open>0-9\<close> and hyphens only.
\<close>

theorem slugFromName_drops_and_collapses:
  "slugFromName [] = [] \<and>
   (\<not> allowedChar (toLowerCaseChar c) \<longrightarrow>
      slugFromName (c # s) = slugFromName s \<and>
      slugFromName (pre @ c # post) = slugFromName (pre @ post)) \<and>
   (allowedChar (toLowerCaseChar c) \<and> \<not> isWhitespace c \<longrightarrow>
      slugFromName (c # s) = toLowerCaseChar c # slugFromName s) \<and>
   (isWhitespace c \<longrightarrow>
      slugFromName (c # s) =
        CHR ''-'' # slugFromName
          (dropWhile (\<lambda>d. isWhitespace d \<or> \<not> allowedChar (toLowerCaseChar d)) s)) \<and>
   (65 \<le> (of_char c :: nat) \<and> (of_char c :: nat) \<le> 90 \<longrightarrow>
      slugFromName (c # s) = char_of (of_char c + 32 :: nat) # slugFromName s) \<and>
   (isLowerAlnum c \<or> c = CHR ''-'' \<longrightarrow> slugFromName (c # s) = c # slugFromName s) \<and>
   list_all (\<lambda>c. isLowerAlnum c \<or> c = CHR ''-'') (slugFromName name)"
proof -
  have empty: "slugFromName [] = []"
    by (simp add: slugFromName_plain removeDisallowed_def toLowerCase_def)
  have dropped: "slugFromName (c # s) = slugFromName s \<and>
      slugFromName (pre @ c # post) = slugFromName (pre @ post)"
    if "\<not> allowedChar (toLowerCaseChar c)"
    using that
    by (simp add: slugFromName_plain removeDisallowed_def toLowerCase_def)
  have kept: "slugFromName (c # s) = toLowerCaseChar c # slugFromName s"
    if "allowedChar (toLowerCaseChar c)" "\<not> isWhitespace c" for c
    using that
    by (simp add: slugFromName_plain removeDisallowed_toLowerCase_Cons isWhitespace_toLowerCaseChar)
  have run: "slugFromName (c # s) =
        CHR ''-'' # slugFromName
          (dropWhile (\<lambda>d. isWhitespace d \<or> \<not> allowedChar (toLowerCaseChar d)) s)"
    if "isWhitespace c"
    using that
    by (simp add: slugFromName_plain removeDisallowed_toLowerCase_Cons whitespace_allowed
        isWhitespace_toLowerCaseChar dropWhile_whitespace_after_removal)
  have upper: "slugFromName (c # s) = char_of (of_char c + 32 :: nat) # slugFromName s"
    if u: "65 \<le> (of_char c :: nat) \<and> (of_char c :: nat) \<le> 90"
  proof -
    from u have a: "allowedChar (toLowerCaseChar c)"
      using toLowerCaseChar_upper(2)[of c] by (simp add: allowedChar_def)
    from u have "\<not> isWhitespace c" by (auto simp: isWhitespace_def)
    from kept[OF a this] u show ?thesis
      using toLowerCaseChar_upper(1)[of c] by simp
  qed
  have plain: "slugFromName (c # s) = c # slugFromName s"
    if p: "isLowerAlnum c \<or> c = CHR ''-''"
  proof -
    from p have l: "toLowerCaseChar c = c" by (rule toLowerCaseChar_slug_char)
    from p have "allowedChar (toLowerCaseChar c)" by (auto simp: l allowedChar_def)
    moreover from p have "\<not> isWhitespace c"
      using lowerAlnum_not_whitespace hyphen_not_whitespace by blast
    ultimately show ?thesis using kept[of c] l by simp
  qed
  have chars: "list_all (\<lambda>c. isLowerAlnum c \<or> c = CHR ''-'') (slugFromName name)"
    using slugFromName_chars by (auto simp: list_all_iff)
  from empty dropped kept[of c] run upper plain chars show ?thesis by blast
qed


text \<open>
  The exclamation mark of \<open>a!b\<close> is dropped, \<open>A\<close> becomes \<open>a\<close>, and the run of \<open>a ! b\<close>,
  two spaces around a dropped character, makes one hyphen.
\<close>

theorem slugFromName_drops_and_collapses_witness:
  "\<not> allowedChar (toLowerCaseChar CHR ''!'') \<and> isWhitespace CHR '' '' \<and>
   slugFromName ''a!b'' = slugFromName ''ab'' \<and>
   slugFromName ''!b'' = slugFromName ''b'' \<and>
   slugFromName ''Ab'' = CHR ''a'' # slugFromName ''b'' \<and>
   slugFromName '' ! b'' = CHR ''-'' # slugFromName ''b'' \<and>
   slugFromName ''a ! b'' = ''a-b'' \<and>
   slugFromName ''Hello   World'' = ''hello-world''"
proof -
  have n: "\<not> allowedChar (toLowerCaseChar CHR ''!'')"
    and w: "isWhitespace CHR '' ''"
    and u: "65 \<le> (of_char CHR ''A'' :: nat) \<and> (of_char CHR ''A'' :: nat) \<le> 90"
    and d: "dropWhile (\<lambda>d. isWhitespace d \<or> \<not> allowedChar (toLowerCaseChar d)) ''! b'' = ''b''"
    by (simp_all add: allowedChar_def toLowerCaseChar_def isLowerAlnum_def isWhitespace_def)
  have l: "char_of (of_char CHR ''A'' + 32 :: nat) = CHR ''a''"
    by code_simp
  have e: "slugFromName ''a ! b'' = ''a-b''" "slugFromName ''Hello   World'' = ''hello-world''"
    by code_simp+
  from slugFromName_drops_and_collapses[where c = "CHR ''!''" and s = "''b''" and pre = "''a''"
      and post = "''b''"]
    slugFromName_drops_and_collapses[where c = "CHR ''A''" and s = "''b''"]
    slugFromName_drops_and_collapses[where c = "CHR '' ''" and s = "''! b''"]
    n w u l d e
  show ?thesis by simp
qed

text \<open>
  Claim C5 as written has every non-alphanumeric character turned into a hyphen. The code
  deletes punctuation instead: \<open>a!b\<close> gives \<open>ab\<close>, and \<open>R&D (new)\<close> gives \<open>rd-new\<close>, with
  a hyphen for the space only.
\<close>

theorem slugFromName_punctuation_counterexample:
  "slugFromName ''a!b'' = ''ab'' \<and> slugFromName ''R&D (new)'' = ''rd-new''"
  by code_simp

text \<open>
  Claim C6. Slug generation is idempotent: the slug of a slug is that slug, and running
  \<open>generateSlug\<close> (or \<open>generateCode\<close>) twice leaves the form as one run does. That the same
  name always gives the same slug is the fact that \<open>slugFromName\<close> is a function of the name.
\<close>

theorem slug_generation_idempotent:
  "slugFromName (slugFromName name) = slugFromName name \<and>
   generateSlug (generateSlug form) = generateSlug form \<and>
   generateCode (generateCode facet) = generateCode facet"
  by (simp add: slugFromName_idem generateSlug_def generateCode_def)

text \<open>\<open>Shoe Size\<close> gives \<open>shoe-size\<close>, which is its own slug.\<close>

theorem slug_generation_idempotent_witness:
  "slugFromName ''Shoe Size'' = ''shoe-size'' \<and>
   slugFromName ''shoe-size'' = ''shoe-size'' \<and>
   form_slug (generateSlug shirtNoSlug) = ''shirt'' \<and>
   generateSlug (generateSlug shirtNoSlug) = generateSlug shirtNoSlug \<and>
   facet_code (generateCode facetForm) = ''shoe-size'' \<and>
   generateCode (generateCode facetForm) = generateCode facetForm"
proof -
  have e: "slugFromName ''Shoe Size'' = ''shoe-size''" "slugFromName ''Shirt'' = ''shirt''"
    by code_simp+
  from slug_generation_idempotent[of "''Shoe Size''" shirtNoSlug facetForm] e
  show ?thesis
    by (simp add: generateSlug_def generateCode_def shirtNoSlug_def shirtForm_def facetForm_def)
qed

section \<open>Properties of the listing pages\<close>

text \<open>
  Claim C7. On each of the three listings that keep a pagination state (products, orders,
  attributes), fetching with page index \<open>p\<close> and page size \<open>s\<close> hands exactly one query to the
  Apollo client, with \<open>take = s\<close> and \<open>skip = p * s\<close>; without an Apollo client the function
  throws before it queries and nothing is sent.
\<close>

theorem fetch_requests_skip_take:
  assumes "pageIndex (pagination st) = p" and "pageSize (pagination st) = s"
  shows "list_requests (fetchProducts apollo response st) =
           list_requests st @
           (if apollo then [Query ''GET_PRODUCTS'' \<lparr>q_take = s, q_skip = p * s\<rparr>] else []) \<and>
         list_requests (fetchOrders apollo response st) =
           list_requests st @
           (if apollo then [Query ''GET_ORDERS'' \<lparr>q_take = s, q_skip = p * s\<rparr>] else []) \<and>
         list_requests (fetchFacets apollo response st) =
           list_requests st @
           (if apollo then [Query ''GET_FACETS'' \<lparr>q_take = s, q_skip = p * s\<rparr>] else [])"
  using assms
  by (simp add: fetchProducts_def fetchOrders_def fetchFacets_def fetchPage_def fetchFailed_def
      Let_def split: ListResponse.splits)

text \<open>Page index 2 with page size 10: \<open>take = 10\<close>, \<open>skip = 20\<close>, whatever the answer.\<close>

theorem fetch_requests_skip_take_witness:
  "pageIndex (pagination thirdPage) = 2 \<and> pageSize (pagination thirdPage) = 10 \<and>
   list_requests (fetchProducts True (QueryResolved (Some [''p21'']) (Some 21)) thirdPage) =
     [Query ''GET_PRODUCTS'' \<lparr>q_take = 10, q_skip = 20\<rparr>] \<and>
   list_requests (fetchOrders True (QueryRejected ''Network error'') thirdPage) =
     [Query ''GET_ORDERS'' \<lparr>q_take = 10, q_skip = 20\<rparr>] \<and>
   list_requests (fetchFacets True (QueryResolved None None) thirdPage) =
     [Query ''GET_FACETS'' \<lparr>q_take = 10, q_skip = 20\<rparr>]"
proof -
  have p: "pageIndex (pagination thirdPage) = 2" and s: "pageSize (pagination thirdPage) = 10"
    and r: "list_requests thirdPage = []"
    by (simp_all add: thirdPage_def)
  from fetch_requests_skip_take[OF p s, of True "QueryResolved (Some [''p21'']) (Some 21)"]
    fetch_requests_skip_take[OF p s, of True "QueryRejected ''Network error''"]
    fetch_requests_skip_take[OF p s, of True "QueryResolved None None"] p s r
  show ?thesis by simp
qed

text \<open>A deletion that fails, in any of the three ways, leaves the fetched rows alone.\<close>

lemma failed_delete_keeps_rows:
  "result \<noteq> ''DELETED'' \<Longrightarrow>
   rows (deleteProduct productId productName apollo (DeleteResolved (Some (result, message))) refetched st) = rows st \<and>
   totalItems (deleteProduct productId productName apollo (DeleteResolved (Some (result, message))) refetched st) = totalItems st"
  "rows (deleteProduct productId productName apollo (DeleteRejected message) refetched st) = rows st"
  "rows (deleteProduct productId productName apollo (DeleteResolved None) refetched st) = rows st"
  by (simp_all add: deleteProduct_def deleteFailed_def Let_def)

section \<open>Properties of the order creation page\<close>

text \<open>The two helpers that write the logs touch nothing else.\<close>

lemma sent_showToast: "sent (showToast t st) = sent st"
  by (simp add: showToast_def)

lemma sent_send: "sent (send r st) = sent st @ [r]"
  by (simp add: send_def)

lemma draftOrder_showToast: "draftOrder (showToast t st) = draftOrder st"
  by (simp add: showToast_def)

lemma draftOrder_send: "draftOrder (send r st) = draftOrder st"
  by (simp add: send_def)

lemma toasts_showToast: "toasts (showToast t st) = toasts st @ [t]"
  by (simp add: showToast_def)

lemma toasts_send: "toasts (send r st) = toasts st"
  by (simp add: send_def)

lemmas log_simps =
  sent_showToast sent_send draftOrder_showToast draftOrder_send toasts_showToast toasts_send

text \<open>What each function of the page appends to the request log.\<close>

lemma sent_initializeDraftOrder:
  "sent (initializeDraftOrder outcome st) = sent st @ [CreateDraftOrder]"
  by (simp add: initializeDraftOrder_def Let_def log_simps split: MutateOutcome.splits)

lemma sent_loadProducts:
  "sent (loadProducts outcome st) =
     sent st @ (if productSearchQuery st = [] then [] else [SearchProducts 50 (productSearchQuery st)])"
  by (simp add: loadProducts_def Let_def log_simps split: SearchOutcome.splits)

lemma sent_addItemToOrder:
  "sent (addItemToOrder variantId variantName outcome st) =
     sent st @ (if draftOrderId st = [] \<or> isVariantInOrder st variantId then []
                else [AddItemToDraftOrder (draftOrderId st) variantId 1])"
  by (simp add: addItemToOrder_def Let_def log_simps split: MutateOutcome.splits)

lemma sent_removeItemFromOrder:
  "sent (removeItemFromOrder orderLineId outcome st) =
     sent st @ (if draftOrderId st = [] then []
                else [RemoveDraftOrderLine (draftOrderId st) orderLineId])"
  by (simp add: removeItemFromOrder_def Let_def log_simps split: MutateOutcome.splits)

lemma sent_saveCustomer:
  "\<exists>r. sent (saveCustomer outcome st) = sent st \<or>
       sent (saveCustomer outcome st) = sent st @ [SetDraftOrderCustomer (draftOrderId st) r]"
  by (simp add: saveCustomer_def Let_def log_simps split: MutateOutcome.splits)

lemma sent_saveShippingAddress:
  "\<exists>a. sent (saveShippingAddress outcome st) = sent st \<or>
       sent (saveShippingAddress outcome st) = sent st @ [SetDraftOrderShippingAddress (draftOrderId st) a]"
  by (simp add: saveShippingAddress_def Let_def log_simps split: MutateOutcome.splits)

lemma sent_saveBillingAddress:
  "\<exists>a. sent (saveBillingAddress outcome st) = sent st \<or>
       sent (saveBillingAddress outcome st) = sent st @ [SetDraftOrderBillingAddress (draftOrderId st) a]"
  by (simp add: saveBillingAddress_def Let_def log_simps split: MutateOutcome.splits)

lemma sent_copyShippingToBilling:
  "\<exists>a. sent (copyShippingToBilling outcome st) = sent st \<or>
       sent (copyShippingToBilling outcome st) = sent st @ [SetDraftOrderBillingAddress (draftOrderId st) a]"
  by (simp add: copyShippingToBilling_def Let_def log_simps split: MutateOutcome.splits option.splits)

lemma sent_completeOrder:
  "sent (completeOrder outcome st) =
     sent st @ (if draftOrderId st = [] then []
                else [TransitionOrderToState (draftOrderId st) ''ArrangingPayment''])"
  by (simp add: completeOrder_def Let_def log_simps draftOrderId_def split: MutateOutcome.splits)

lemma handle_transitions:
  assumes "TransitionOrderToState orderId target \<in> set (sent (handle e st))"
  shows "TransitionOrderToState orderId target \<in> set (sent st) \<or> target = ''ArrangingPayment''"
proof (cases e)
  case (Mounted outcome)
  with assms show ?thesis by (simp add: sent_initializeDraftOrder)
next
  case (SearchTyped q outcome)
  with assms show ?thesis by (simp add: sent_loadProducts split: if_splits)
next
  case (AddItemClicked variantId variantName outcome)
  with assms show ?thesis by (simp add: sent_addItemToOrder split: if_splits)
next
  case (RemoveItemClicked orderLineId outcome)
  with assms show ?thesis by (simp add: sent_removeItemFromOrder split: if_splits)
next
  case (SaveCustomerClicked outcome)
  with assms sent_saveCustomer[of outcome st] show ?thesis by auto
next
  case (SaveShippingClicked outcome)
  with assms sent_saveShippingAddress[of outcome st] show ?thesis by auto
next
  case (SaveBillingClicked outcome)
  with assms sent_saveBillingAddress[of outcome st] show ?thesis by auto
next
  case (CopyShippingClicked outcome)
  with assms sent_copyShippingToBilling[of outcome st] show ?thesis by auto
next
  case (CompleteOrderClicked outcome)
  with assms show ?thesis by (auto simp: sent_completeOrder split: if_splits)
qed (use assms in \<open>simp_all add: onCancel_def\<close>)

lemma run_transitions:
  "TransitionOrderToState orderId target \<in> set (sent (run events st)) \<Longrightarrow>
   TransitionOrderToState orderId target \<in> set (sent st) \<or> target = ''ArrangingPayment''"
proof (induction events arbitrary: st)
  case Nil
  then show ?case by simp
next
  case (Cons e events)
  from Cons.prems have "TransitionOrderToState orderId target \<in> set (sent (run events (handle e st)))"
    by simp
  from Cons.IH[OF this] handle_transitions show ?case by blast
qed

text \<open>
  Claim C9. In every run of the order creation page, whatever the user does and whatever the
  remote API answers, every \<open>TransitionOrderToState\<close> mutation among the requests sent asks
  for the state \<open>ArrangingPayment\<close>.
\<close>

theorem client_transitions_to_ArrangingPayment_only:
  "TransitionOrderToState orderId target \<in> set (sent (run events initialPage)) \<Longrightarrow>
   target = ''ArrangingPayment''"
  using run_transitions[of orderId target events initialPage]
  by (simp add: initialPage_def)

text \<open>Create the draft, add a shirt, complete the order: the one transition sent.\<close>

theorem client_transitions_to_ArrangingPayment_only_witness:
  "sent (run sampleRun initialPage) =
     [CreateDraftOrder, AddItemToDraftOrder ''42'' ''v1'' 1,
      TransitionOrderToState ''42'' ''ArrangingPayment''] \<and>
   TransitionOrderToState ''42'' ''ArrangingPayment'' \<in> set (sent (run sampleRun initialPage))"
proof -
  have s: "sent (run sampleRun initialPage) =
     [CreateDraftOrder, AddItemToDraftOrder ''42'' ''v1'' 1,
      TransitionOrderToState ''42'' ''ArrangingPayment'']"
    by (simp add: sampleRun_def initialPage_def order42_def shirtLine_def
        initializeDraftOrder_def addItemToOrder_def completeOrder_def isVariantInOrder_def
        draftOrderId_def draftOrderCode_def send_def showToast_def Let_def)
  then have m: "TransitionOrderToState ''42'' ''ArrangingPayment'' \<in> set (sent (run sampleRun initialPage))"
    by simp
  from client_transitions_to_ArrangingPayment_only[OF m] s m show ?thesis by simp
qed


text \<open>
  Claim C8 does not hold of the order creation page when a mutation resolves with an error
  result. Adding an item that the server refuses overwrites the stored draft order with the
  error object and shows the success toast; completing an order that the server refuses to
  transition shows the success toast and leaves for the orders listing. Rejected mutations
  and the deletion of a product behave as the claim says
  (\<open>rejected_mutation_keeps_draftOrder\<close>, \<open>failed_delete_keeps_rows\<close>).
\<close>

theorem mutation_error_result_taken_for_success:
  "draftOrder pageWithOrder = OrderValue order42 \<and>
   draftOrder (addItemToOrder ''v2'' ''Hat''
                (MutateResolved (ErrorResultValue ''InsufficientStockError'')) pageWithOrder) =
     ErrorResultValue ''InsufficientStockError'' \<and>
   toasts (addItemToOrder ''v2'' ''Hat''
             (MutateResolved (ErrorResultValue ''InsufficientStockError'')) pageWithOrder) =
     [\<lparr>title = ''Success'', description = ''Hat added to order'', color = ''success''\<rparr>] \<and>
   toasts (completeOrder (MutateResolved (ErrorResultValue ''OrderStateTransitionError''))
             pageWithOrder) =
     [\<lparr>title = ''Success'', description = ''Order completed successfully'', color = ''success''\<rparr>] \<and>
   routes (completeOrder (MutateResolved (ErrorResultValue ''OrderStateTransitionError''))
             pageWithOrder) = [''/orders'']"
  by (simp add: pageWithOrder_def initialPage_def order42_def shirtLine_def isVariantInOrder_def
      draftOrderId_def addItemToOrder_def completeOrder_def send_def showToast_def
      successToast_def Let_def)







end
